theory Spec2Isabelle
  imports Complex_Main
begin

section \<open>Strings as the matcher sees them\<close>

text \<open>
  The program is \<^verbatim>\<open>screen_text_highlighterV4.py\<close>. Its texts and keywords are Python
  strings; they are modelled as \<^typ>\<open>string\<close>, one \<^typ>\<open>char\<close> per code point, and the
  three classifications the matcher relies on (\<^verbatim>\<open>str.lower\<close>, \<^verbatim>\<open>str.strip\<close> and the
  regular expression class \<^verbatim>\<open>\w\<close>) are written out for the ASCII range: a character
  outside it has no case, is no white space and is no word character here.
\<close>

definition lower_char :: "char \<Rightarrow> char" where
  "lower_char c =
     (case map_of (zip ''ABCDEFGHIJKLMNOPQRSTUVWXYZ'' ''abcdefghijklmnopqrstuvwxyz'') c of
        Some d \<Rightarrow> d
      | None \<Rightarrow> c)"

definition lower :: "string \<Rightarrow> string" where
  \<comment> \<open>\<^verbatim>\<open>s.lower()\<close>\<close>
  "lower s = map lower_char s"

definition is_space :: "char \<Rightarrow> bool" where
  \<comment> \<open>the ASCII characters on which \<^verbatim>\<open>str.isspace\<close> holds: TAB, LF, VT, FF, CR, FS, GS, RS, US, SPACE\<close>
  "is_space c =
     (let n = (of_char c :: nat) in (9 \<le> n \<and> n \<le> 13) \<or> (28 \<le> n \<and> n \<le> 32))"

definition strip :: "string \<Rightarrow> string" where
  \<comment> \<open>\<^verbatim>\<open>s.strip()\<close>: leading and trailing white space removed\<close>
  "strip s = rev (dropWhile is_space (rev (dropWhile is_space s)))"

definition is_word_char :: "char \<Rightarrow> bool" where
  \<comment> \<open>\<^verbatim>\<open>\w\<close>: a digit, a letter or the underscore\<close>
  "is_word_char c =
     (let n = (of_char c :: nat)
      in (48 \<le> n \<and> n \<le> 57) \<or> (65 \<le> n \<and> n \<le> 90) \<or> (97 \<le> n \<and> n \<le> 122) \<or> n = 95)"

function findall_words :: "string \<Rightarrow> string list" where
  \<comment> \<open>\<^verbatim>\<open>re.findall(r'\b\w+\b', s)\<close>: the maximal runs of word characters, left to right\<close>
  "findall_words [] = []"
| "findall_words (c # cs) =
     (if is_word_char c
      then (c # takeWhile is_word_char cs) # findall_words (dropWhile is_word_char cs)
      else findall_words cs)"
  by pat_completeness auto
termination
  by (relation "measure length") (auto simp: length_dropWhile_le less_Suc_eq_le)

fun starts_with :: "string \<Rightarrow> string \<Rightarrow> bool" where
  \<comment> \<open>\<open>starts_with k t\<close>: \<open>k\<close> is an initial segment of \<open>t\<close>\<close>
  "starts_with [] t = True"
| "starts_with (a # k) [] = False"
| "starts_with (a # k) (b # t) = (a = b \<and> starts_with k t)"

fun str_contains :: "string \<Rightarrow> string \<Rightarrow> bool" where
  \<comment> \<open>\<^verbatim>\<open>k in t\<close> on strings: \<open>k\<close> occurs in \<open>t\<close> as a contiguous substring\<close>
  "str_contains k [] = (k = [])"
| "str_contains k (b # t) = (starts_with k (b # t) \<or> str_contains k t)"

section \<open>The search model\<close>

text \<open>
  Class \<^verbatim>\<open>AdvancedSearchModel\<close>. Its fields, with the values \<^verbatim>\<open>__init__\<close> gives them.
\<close>

record search_model =
  keyword_list :: "string list"   \<comment> \<open>\<^verbatim>\<open>self.keywords\<close>\<close>
  logic :: string
  case_sensitive :: bool
  partial_match :: bool
  use_regex :: bool
  whole_word :: bool

definition init_model :: search_model where
  "init_model = \<lparr> keyword_list = [], logic = ''OR'', case_sensitive = False,
                  partial_match = True, use_regex = False, whole_word = False \<rparr>"




subsection \<open>Matching one keyword\<close>

definition fold_case :: "search_model \<Rightarrow> string \<Rightarrow> string" where
  \<comment> \<open>\<^verbatim>\<open>s if self.case_sensitive else s.lower()\<close>\<close>
  "fold_case m s = (if case_sensitive m then s else lower s)"

text \<open>
  The body of the keyword loop, which \<^verbatim>\<open>match_text\<close> and \<^verbatim>\<open>get_match_details\<close> both
  contain verbatim: the value of \<^verbatim>\<open>match\<close> for one \<^verbatim>\<open>keyword\<close>, given \<^verbatim>\<open>text_to_match\<close>.
\<close>

definition keyword_match :: "search_model \<Rightarrow> string \<Rightarrow> string \<Rightarrow> bool" where
  "keyword_match m text_to_match keyword =
     (let keyword_to_match = fold_case m keyword
      in if partial_match m then
           if whole_word m then
             (let words = findall_words text_to_match
              in list_ex (\<lambda>word. keyword_to_match = fold_case m word) words)
           else str_contains keyword_to_match text_to_match
         else keyword_to_match = text_to_match)"

subsection \<open>\<^verbatim>\<open>match_text\<close>\<close>

text \<open>
  \<^verbatim>\<open>re.search(pattern, text, flags)\<close> belongs to the Python library, so it is a parameter
  of the model: a function from the pattern, the text and whether \<^verbatim>\<open>re.IGNORECASE\<close> is
  passed to one of three outcomes.
\<close>

datatype re_outcome =
    ReError      \<comment> \<open>\<^verbatim>\<open>re.error\<close> is raised: the pattern does not compile\<close>
  | ReFound      \<comment> \<open>a match object is returned\<close>
  | ReNone       \<comment> \<open>\<^verbatim>\<open>None\<close> is returned\<close>

type_synonym re_search = "string \<Rightarrow> string \<Rightarrow> bool \<Rightarrow> re_outcome"

text \<open>
  The loop inside the \<^verbatim>\<open>try\<close> of the regular-expression branch. \<open>Inl ()\<close> stands for
  \<^verbatim>\<open>re.error\<close> leaving the loop, \<open>Inr b\<close> for the loop (or the line after it) returning \<open>b\<close>.
\<close>

fun regex_loop :: "re_search \<Rightarrow> search_model \<Rightarrow> string \<Rightarrow> string list \<Rightarrow> unit + bool" where
  "regex_loop re m text [] = Inr (logic m = ''AND'')"
| "regex_loop re m text (pattern # rest) =
     (case re pattern text (\<not> case_sensitive m) of
        ReError \<Rightarrow> Inl ()
      | ReFound \<Rightarrow> if logic m = ''OR'' then Inr True else regex_loop re m text rest
      | ReNone \<Rightarrow> if logic m = ''AND'' then Inr False else regex_loop re m text rest)"

definition plain_match :: "search_model \<Rightarrow> string \<Rightarrow> bool" where
  \<comment> \<open>the part of \<^verbatim>\<open>match_text\<close> below the regular-expression branch\<close>
  "plain_match m text_to_match =
     (let matches = map (keyword_match m text_to_match) (keyword_list m)
      in if logic m = ''OR'' then list_ex (\<lambda>b. b) matches else list_all (\<lambda>b. b) matches)"

definition match_text :: "re_search \<Rightarrow> search_model \<Rightarrow> string \<Rightarrow> bool" where
  "match_text re m text =
     (if keyword_list m = [] \<or> text = [] then False
      else
        let text_to_match = fold_case m text
        in if use_regex m then
             (case regex_loop re m text (keyword_list m) of
                Inr b \<Rightarrow> b
              | Inl _ \<Rightarrow> plain_match m text_to_match)
           else plain_match m text_to_match)"

subsection \<open>\<^verbatim>\<open>get_match_details\<close>\<close>

text \<open>
  The dictionary that \<^verbatim>\<open>get_match_details\<close> returns. The early return carries no
  \<^verbatim>\<open>"text"\<close> entry, the regular one does.
\<close>

record match_details =
  d_matched :: bool
  d_keywords :: "string list"
  d_text :: "string option"

fun details_loop :: "search_model \<Rightarrow> string \<Rightarrow> string list \<Rightarrow> match_details \<Rightarrow> match_details" where
  "details_loop m text [] details = details"
| "details_loop m text (keyword # rest) details =
     (let text_to_match = fold_case m text;
          match = keyword_match m text_to_match keyword
      in details_loop m text rest
           (if match
            then details\<lparr> d_keywords := d_keywords details @ [keyword],
                         d_matched := (if logic m = ''OR'' then True else d_matched details) \<rparr>
            else details))"

definition get_match_details :: "search_model \<Rightarrow> string \<Rightarrow> match_details" where
  "get_match_details m text =
     (if keyword_list m = [] \<or> text = [] then \<lparr> d_matched = False, d_keywords = [], d_text = None \<rparr>
      else
        let details = details_loop m text (keyword_list m)
                        \<lparr> d_matched = False, d_keywords = [], d_text = Some text \<rparr>
        in if logic m = ''AND'' \<and> length (d_keywords details) < length (keyword_list m)
           then details\<lparr> d_matched := False \<rparr>
           else details)"

subsection \<open>Editing the keyword list\<close>





subsection \<open>The matching rule as the specification words it\<close>






subsection \<open>A table of \<^verbatim>\<open>re.search\<close> results\<close>

text \<open>
  Three facts about Python's \<^verbatim>\<open>re\<close> module, used where a concrete run in
  regular-expression mode is evaluated: the pattern \<^verbatim>\<open>(\<close> does not compile (\<^verbatim>\<open>re.error\<close>,
  a parenthesis is missing), the pattern \<^verbatim>\<open>a.c\<close> is found in the text \<^verbatim>\<open>abc\<close>, and the
  pattern \<^verbatim>\<open>cat\<close> is found in the text \<^verbatim>\<open>category\<close>. The table is applied to no other
  pattern and text.
\<close>

definition re_table :: re_search where
  "re_table pattern text ignorecase =
     (if pattern = ''('' then ReError
      else if pattern = ''a.c'' \<and> text = ''abc'' then ReFound
      else if pattern = ''cat'' \<and> text = ''category'' then ReFound
      else ReNone)"

section \<open>Monitors and the region selection\<close>

text \<open>
  An entry of \<^verbatim>\<open>sct.monitors\<close> (the \<^verbatim>\<open>mss\<close> library): a dictionary with the keys
  \<^verbatim>\<open>left\<close>, \<^verbatim>\<open>top\<close>, \<^verbatim>\<open>width\<close>, \<^verbatim>\<open>height\<close>.
\<close>

record mss_monitor =
  mss_left :: int
  mss_top :: int
  mss_width :: int
  mss_height :: int

text \<open>A value of the dictionary \<^verbatim>\<open>monitor_info\<close>, as \<^verbatim>\<open>get_monitor_info\<close> fills it.\<close>

record monitor_entry =
  mon_index :: int
  mon_left :: int
  mon_top :: int
  mon_width :: int
  mon_height :: int
  mon_right :: int
  mon_bottom :: int

text \<open>
  Python dictionaries keep insertion order, and the code iterates over them, so
  \<^verbatim>\<open>monitor_info\<close> and \<^verbatim>\<open>selected_regions\<close> are association lists; \<open>map_of\<close> is the lookup
  and \<open>dict_set\<close> the assignment \<^verbatim>\<open>d[k] = v\<close>.
\<close>

type_synonym monitor_dict = "(int \<times> monitor_entry) list"

fun dict_set :: "'k \<Rightarrow> 'v \<Rightarrow> ('k \<times> 'v) list \<Rightarrow> ('k \<times> 'v) list" where
  "dict_set k v [] = [(k, v)]"
| "dict_set k v ((k', v') # rest) =
     (if k = k' then (k, v) # rest else (k', v') # dict_set k v rest)"

fun enumerate_from :: "int \<Rightarrow> 'a list \<Rightarrow> (int \<times> 'a) list" where
  \<comment> \<open>\<^verbatim>\<open>enumerate(xs, i)\<close>\<close>
  "enumerate_from i [] = []"
| "enumerate_from i (x # xs) = (i, x) # enumerate_from (i + 1) xs"

definition get_monitor_info :: "mss_monitor list \<Rightarrow> monitor_dict" where
  \<comment> \<open>the argument is \<^verbatim>\<open>sct.monitors\<close>; its first entry, the virtual desktop, is skipped\<close>
  "get_monitor_info sct_monitors =
     map (\<lambda>(i, monitor).
            (i, \<lparr> mon_index = i, mon_left = mss_left monitor, mon_top = mss_top monitor,
                  mon_width = mss_width monitor, mon_height = mss_height monitor,
                  mon_right = mss_left monitor + mss_width monitor,
                  mon_bottom = mss_top monitor + mss_height monitor \<rparr>))
         (enumerate_from 1 (drop 1 sct_monitors))"

text \<open>
  The state of a \<^verbatim>\<open>RegionSelectionWindow\<close> that \<^verbatim>\<open>mouseReleaseEvent\<close> reads: the position
  of the window (\<^verbatim>\<open>self.x()\<close>, \<^verbatim>\<open>self.y()\<close>), the two corners of the drag and the flag.
\<close>

record selection_window =
  win_x :: int
  win_y :: int
  start_x :: int
  start_y :: int
  end_x :: int
  end_y :: int
  is_selecting :: bool

type_synonym region = "int \<times> int \<times> int \<times> int"   \<comment> \<open>\<^verbatim>\<open>(x, y, width, height)\<close>\<close>

fun first_monitor_at :: "monitor_dict \<Rightarrow> int \<Rightarrow> int \<Rightarrow> int option" where
  \<comment> \<open>the loop of \<^verbatim>\<open>get_monitor_at_point\<close>; both edges of a monitor are inclusive\<close>
  "first_monitor_at [] global_x global_y = None"
| "first_monitor_at ((idx, monitor) # rest) global_x global_y =
     (if mon_left monitor \<le> global_x \<and> global_x \<le> mon_right monitor \<and>
         mon_top monitor \<le> global_y \<and> global_y \<le> mon_bottom monitor
      then Some idx
      else first_monitor_at rest global_x global_y)"

definition get_monitor_at_point :: "selection_window \<Rightarrow> monitor_dict \<Rightarrow> int \<Rightarrow> int \<Rightarrow> int option" where
  "get_monitor_at_point win monitor_info x y =
     (let global_x = x + win_x win; global_y = y + win_y win
      in first_monitor_at monitor_info global_x global_y)"

text \<open>
  What \<^verbatim>\<open>mouseReleaseEvent\<close> does: nothing (another button, or no drag in progress), one
  of its two warnings followed by \<^verbatim>\<open>return\<close>, or the signal \<^verbatim>\<open>region_selected\<close> with the
  region and the monitor index. \<open>LookupFailed\<close> is the \<^verbatim>\<open>KeyError\<close> of
  \<^verbatim>\<open>monitor_info[monitor_idx]\<close>.
\<close>

datatype release_outcome =
    Ignored
  | RegionTooSmall
  | MonitorUnknown
  | LookupFailed
  | RegionSelected region int

definition mouseReleaseEvent :: "bool \<Rightarrow> selection_window \<Rightarrow> monitor_dict \<Rightarrow> release_outcome" where
  "mouseReleaseEvent left_button win monitor_info =
     (if left_button \<and> is_selecting win then
        let x = min (start_x win) (end_x win);
            y = min (start_y win) (end_y win);
            w = \<bar>start_x win - end_x win\<bar>;
            h = \<bar>start_y win - end_y win\<bar>
        in if w < 50 \<or> h < 30 then RegionTooSmall
           else
             let global_x = x + win_x win;
                 global_y = y + win_y win
             in (case get_monitor_at_point win monitor_info (x + w div 2) (y + h div 2) of
                   None \<Rightarrow> MonitorUnknown
                 | Some monitor_idx \<Rightarrow>
                     if monitor_idx = 0 then MonitorUnknown
                     else (case map_of monitor_info monitor_idx of
                             None \<Rightarrow> LookupFailed
                           | Some monitor \<Rightarrow>
                               let relative_x = global_x - mon_left monitor;
                                   relative_y = global_y - mon_top monitor
                               in RegionSelected (relative_x, relative_y, w, h) monitor_idx))
      else Ignored)"

text \<open>
  The region registry is the global \<^verbatim>\<open>selected_regions\<close>. A value is a 4-tuple, or
  something for which \<^verbatim>\<open>not region\<close> holds (\<open>None\<close> here). The slot
  \<^verbatim>\<open>on_region_selected\<close> is connected to the signal, so a release changes the registry
  exactly through it.
\<close>

type_synonym region_dict = "(int \<times> region option) list"

definition on_region_selected :: "region \<Rightarrow> int \<Rightarrow> region_dict \<Rightarrow> region_dict" where
  "on_region_selected region monitor_index selected_regions =
     dict_set monitor_index (Some region) selected_regions"

definition release_and_select ::
  "bool \<Rightarrow> selection_window \<Rightarrow> monitor_dict \<Rightarrow> region_dict \<Rightarrow> region_dict" where
  "release_and_select left_button win monitor_info selected_regions =
     (case mouseReleaseEvent left_button win monitor_info of
        RegionSelected region monitor_idx \<Rightarrow> on_region_selected region monitor_idx selected_regions
      | _ \<Rightarrow> selected_regions)"

section \<open>The scan cycle\<close>

datatype py_exception = IndexError | ZeroDivisionError | ExternalError

definition py_index :: "'a list \<Rightarrow> int \<Rightarrow> py_exception + 'a" where
  \<comment> \<open>\<^verbatim>\<open>xs[i]\<close>: an index below zero counts back from the end; outside the list it raises\<close>
  "py_index xs i =
     (if 0 \<le> i \<and> i < int (length xs) then Inr (xs ! nat i)
      else if i < 0 \<and> - int (length xs) \<le> i then Inr (xs ! nat (int (length xs) + i))
      else Inl IndexError)"

text \<open>
  The argument of \<^verbatim>\<open>sct.grab\<close>, and one row of the dictionary of lists that
  \<^verbatim>\<open>pytesseract.image_to_data\<close> returns (\<^verbatim>\<open>data["text"][i]\<close>, \<^verbatim>\<open>data["left"][i]\<close>, ...;
  the lists have one length).
\<close>

record screenshot_area =
  area_left :: int
  area_top :: int
  area_width :: int
  area_height :: int

record ocr_fragment =
  frag_text :: string
  frag_left :: int
  frag_top :: int
  frag_width :: int
  frag_height :: int

text \<open>
  What \<^verbatim>\<open>ocr_worker\<close> takes from outside the program. \<open>grab\<close> is the capture
  \<^verbatim>\<open>np.array(sct.grab(screenshot_area))\<close>; \<open>image_to_data\<close> is the recognition, that is the
  \<^verbatim>\<open>cv2\<close> preparation followed by \<^verbatim>\<open>pytesseract.image_to_data\<close> under the settings of
  the control panel. Either may raise. \<open>sct_monitors\<close> is \<^verbatim>\<open>sct.monitors\<close> and
  \<open>scale_percent\<close> is \<^verbatim>\<open>control_panel.scale_spin.value()\<close>.
\<close>

record 'img platform =
  sct_monitors :: "mss_monitor list"
  grab :: "screenshot_area \<Rightarrow> py_exception + 'img"
  image_to_data :: "'img \<Rightarrow> py_exception + ocr_fragment list"
  scale_percent :: int

text \<open>An element of \<^verbatim>\<open>matched_boxes\<close>: \<^verbatim>\<open>(x, y, w, h, monitor_idx, keyword_idx)\<close>.\<close>

record highlight_box =
  box_x :: int
  box_y :: int
  box_w :: int
  box_h :: int
  box_monitor :: int
  box_keyword :: nat

text \<open>
  Python computes \<^verbatim>\<open>int(v / scale_factor)\<close> in floating point. Here the quotient is the
  exact rational and \<^verbatim>\<open>int\<close> truncates it toward zero; division by zero raises.
\<close>

definition py_int :: "rat \<Rightarrow> int" where
  "py_int q = (if 0 \<le> q then \<lfloor>q\<rfloor> else \<lceil>q\<rceil>)"

definition scaled_back :: "int \<Rightarrow> rat \<Rightarrow> py_exception + int" where
  \<comment> \<open>\<^verbatim>\<open>int(v / scale_factor)\<close>\<close>
  "scaled_back v scale_factor =
     (if scale_factor = 0 then Inl ZeroDivisionError else Inr (py_int (of_int v / scale_factor)))"

fun index_of :: "'a \<Rightarrow> 'a list \<Rightarrow> nat" where
  \<comment> \<open>\<^verbatim>\<open>xs.index(x)\<close>, called only where \<^verbatim>\<open>x in xs\<close>\<close>
  "index_of x [] = 0"
| "index_of x (y # ys) = (if x = y then 0 else Suc (index_of x ys))"

definition first_keyword_index :: "search_model \<Rightarrow> match_details \<Rightarrow> nat" where
  "first_keyword_index m details =
     (let keyword_indices =
            map (\<lambda>keyword. index_of keyword (keyword_list m))
                (filter (\<lambda>keyword. keyword \<in> set (keyword_list m)) (d_keywords details))
      in case keyword_indices of [] \<Rightarrow> 0 | i # _ \<Rightarrow> i)"

definition fragment_box ::
  "rat \<Rightarrow> region \<Rightarrow> int \<Rightarrow> nat \<Rightarrow> ocr_fragment \<Rightarrow> py_exception + highlight_box" where
  \<comment> \<open>the tuple appended for fragment \<open>i\<close>: coordinates scaled back, then the region offset added\<close>
  "fragment_box scale_factor region monitor_idx keyword_idx frag =
     (case region of (region_x, region_y, region_w, region_h) \<Rightarrow>
        (case scaled_back (frag_left frag) scale_factor of Inl e \<Rightarrow> Inl e | Inr x0 \<Rightarrow>
        (case scaled_back (frag_top frag) scale_factor of Inl e \<Rightarrow> Inl e | Inr y0 \<Rightarrow>
        (case scaled_back (frag_width frag) scale_factor of Inl e \<Rightarrow> Inl e | Inr w \<Rightarrow>
        (case scaled_back (frag_height frag) scale_factor of Inl e \<Rightarrow> Inl e | Inr h \<Rightarrow>
           Inr \<lparr> box_x = x0 + region_x, box_y = y0 + region_y, box_w = w, box_h = h,
                 box_monitor = monitor_idx, box_keyword = keyword_idx \<rparr>)))))"

text \<open>
  The loop over \<^verbatim>\<open>data["text"]\<close>. It runs inside the \<^verbatim>\<open>try\<close> of the region, so an
  exception ends it and the boxes appended before stay in \<^verbatim>\<open>boxes\<close>.
\<close>

fun match_fragments ::
  "re_search \<Rightarrow> search_model \<Rightarrow> rat \<Rightarrow> region \<Rightarrow> int \<Rightarrow> ocr_fragment list \<Rightarrow>
   highlight_box list \<Rightarrow> highlight_box list" where
  "match_fragments re m scale_factor region monitor_idx [] boxes = boxes"
| "match_fragments re m scale_factor region monitor_idx (frag # rest) boxes =
     (let text = strip (frag_text frag)
      in if text = [] then match_fragments re m scale_factor region monitor_idx rest boxes
         else if match_text re m text then
           (let details = get_match_details m text
            in if d_matched details then
                 (case fragment_box scale_factor region monitor_idx
                         (first_keyword_index m details) frag of
                    Inl e \<Rightarrow> boxes
                  | Inr box \<Rightarrow>
                      match_fragments re m scale_factor region monitor_idx rest (boxes @ [box]))
               else match_fragments re m scale_factor region monitor_idx rest boxes)
         else match_fragments re m scale_factor region monitor_idx rest boxes)"

text \<open>
  The body of the loop over \<^verbatim>\<open>selected_regions.items()\<close>, as a function of the list
  \<^verbatim>\<open>boxes\<close> so far. \<open>Inl\<close> is an exception raised outside the inner \<^verbatim>\<open>try\<close>, which leaves
  the loop; everything raised inside it is caught by \<^verbatim>\<open>except Exception\<close> and the loop
  goes on to the next region.
  After \<^verbatim>\<open>if not region: continue\<close> the region is a 4-tuple, so of
  \<^verbatim>\<open>if region: ... else: screenshot_area = monitor\<close> only the first branch can run. The
  entries the loop also writes to \<^verbatim>\<open>matched_texts\<close> and \<^verbatim>\<open>search_results\<close> are left out:
  they do not flow into \<^verbatim>\<open>boxes\<close>.
\<close>

definition scan_region ::
  "'img platform \<Rightarrow> re_search \<Rightarrow> search_model \<Rightarrow> int \<times> region option \<Rightarrow>
   highlight_box list \<Rightarrow> py_exception + highlight_box list" where
  "scan_region P re m entry boxes =
     (case entry of (monitor_idx, region_opt) \<Rightarrow>
        (case region_opt of
           None \<Rightarrow> Inr boxes
         | Some region \<Rightarrow>
             let monitors = drop 1 (sct_monitors P)
             in if monitor_idx - 1 \<ge> int (length monitors) then Inr boxes
                else (case py_index monitors (monitor_idx - 1) of
                        Inl e \<Rightarrow> Inl e
                      | Inr monitor \<Rightarrow>
                          (case region of (region_x, region_y, region_w, region_h) \<Rightarrow>
                             let screenshot_area =
                                   \<lparr> area_left = mss_left monitor + region_x,
                                     area_top = mss_top monitor + region_y,
                                     area_width = region_w, area_height = region_h \<rparr>
                             in (case grab P screenshot_area of
                                   Inl e \<Rightarrow> Inr boxes
                                 | Inr img \<Rightarrow>
                                     let scale_factor = of_int (scale_percent P) / 100
                                     in (case image_to_data P img of
                                           Inl e \<Rightarrow> Inr boxes
                                         | Inr data \<Rightarrow>
                                             if keyword_list m = [] then Inr boxes
                                             else Inr (match_fragments re m scale_factor region
                                                         monitor_idx data boxes)))))))"

fun scan_regions ::
  "'img platform \<Rightarrow> re_search \<Rightarrow> search_model \<Rightarrow> region_dict \<Rightarrow>
   highlight_box list \<Rightarrow> py_exception + highlight_box list" where
  "scan_regions P re m [] boxes = Inr boxes"
| "scan_regions P re m (entry # rest) boxes =
     (case scan_region P re m entry boxes of
        Inl e \<Rightarrow> Inl e
      | Inr boxes' \<Rightarrow> scan_regions P re m rest boxes')"

text \<open>
  One pass of the \<^verbatim>\<open>while\<close> loop with \<^verbatim>\<open>ocr_active\<close> set, as far as the global
  \<^verbatim>\<open>matched_boxes\<close> goes: the new value of \<^verbatim>\<open>matched_boxes\<close>. An exception that reaches
  the outer \<^verbatim>\<open>try\<close> skips the assignment.
\<close>

definition ocr_cycle ::
  "'img platform \<Rightarrow> re_search \<Rightarrow> search_model \<Rightarrow> region_dict \<Rightarrow>
   highlight_box list \<Rightarrow> highlight_box list" where
  "ocr_cycle P re m selected_regions matched_boxes =
     (case scan_regions P re m selected_regions [] of
        Inl e \<Rightarrow> matched_boxes
      | Inr boxes \<Rightarrow> boxes)"

text \<open>
  The capture or the recognition of a region raises: the loop body reaches \<^verbatim>\<open>sct.grab\<close>
  for it, and \<^verbatim>\<open>sct.grab\<close> or the recognition of the grabbed image returns an exception.
\<close>

definition capture_or_recognition_fails :: "'img platform \<Rightarrow> int \<times> region option \<Rightarrow> bool" where
  "capture_or_recognition_fails P entry =
     (case entry of
        (monitor_idx, Some (region_x, region_y, region_w, region_h)) \<Rightarrow>
          monitor_idx - 1 < int (length (drop 1 (sct_monitors P))) \<and>
          (case py_index (drop 1 (sct_monitors P)) (monitor_idx - 1) of
             Inl e \<Rightarrow> False
           | Inr monitor \<Rightarrow>
               (case grab P \<lparr> area_left = mss_left monitor + region_x,
                              area_top = mss_top monitor + region_y,
                              area_width = region_w, area_height = region_h \<rparr> of
                  Inl e \<Rightarrow> True
                | Inr img \<Rightarrow> (case image_to_data P img of Inl e \<Rightarrow> True | Inr data \<Rightarrow> False)))
      | (monitor_idx, None) \<Rightarrow> False)"

definition boxes_of_region ::
  "'img platform \<Rightarrow> re_search \<Rightarrow> search_model \<Rightarrow> int \<times> region option \<Rightarrow> highlight_box list" where
  \<comment> \<open>the boxes one region contributes to a cycle\<close>
  "boxes_of_region P re m entry =
     (case scan_region P re m entry [] of Inl e \<Rightarrow> [] | Inr boxes \<Rightarrow> boxes)"


section \<open>Painting the boxes\<close>

text \<open>
  The loop body of \<^verbatim>\<open>OverlayWindow.paintEvent\<close> for one element of \<^verbatim>\<open>matched_boxes\<close>:
  the global position \<^verbatim>\<open>(global_x, global_y)\<close>, and the rectangle drawn, which is padded
  by 4 and 2 pixels. A box whose monitor is not in \<^verbatim>\<open>monitor_info\<close> is skipped.
\<close>

definition box_global :: "monitor_dict \<Rightarrow> highlight_box \<Rightarrow> (int \<times> int) option" where
  "box_global monitor_info box =
     (case map_of monitor_info (box_monitor box) of
        None \<Rightarrow> None
      | Some monitor \<Rightarrow> Some (box_x box + mon_left monitor, box_y box + mon_top monitor))"

definition box_rect :: "monitor_dict \<Rightarrow> highlight_box \<Rightarrow> (int \<times> int \<times> int \<times> int) option" where
  "box_rect monitor_info box =
     (case box_global monitor_info box of
        None \<Rightarrow> None
      | Some (global_x, global_y) \<Rightarrow>
          let pad_x = 4; pad_y = 2
          in Some (global_x - pad_x, global_y - pad_y, box_w box + pad_x * 2, box_h box + pad_y * 2))"


section \<open>The shared list \<^verbatim>\<open>matched_boxes\<close> between the two threads\<close>

text \<open>
  \<^verbatim>\<open>ocr_worker\<close> runs in its own thread and \<^verbatim>\<open>OverlayWindow.paintEvent\<close> in the GUI
  thread. Both names \<^verbatim>\<open>boxes\<close> (local to the worker) and \<^verbatim>\<open>matched_boxes\<close> (global) hold
  references to list objects, \<^verbatim>\<open>boxes.append\<close> changes an object in place and
  \<^verbatim>\<open>matched_boxes = boxes\<close> makes both names denote one object. So the objects live in a
  store, from addresses to list contents, and the statements of the two threads that touch
  the lists or the lock are the events of a transition system; any interleaving of the
  two threads is a sequence of events.
\<close>

datatype lock_owner = WorkerThread | PainterThread

datatype worker_pc =
    LoopTop          \<comment> \<open>before \<^verbatim>\<open>boxes = []\<close>\<close>
  | Building         \<comment> \<open>inside the loop over the regions\<close>
  | WorkerLocked     \<comment> \<open>after \<^verbatim>\<open>lock.acquire()\<close>\<close>
  | Rebound          \<comment> \<open>after \<^verbatim>\<open>matched_boxes = boxes\<close>, before \<^verbatim>\<open>lock.release()\<close>\<close>

datatype painter_pc =
    NotPainting
  | Painting nat nat "highlight_box list"
      \<comment> \<open>inside the \<^verbatim>\<open>for\<close> loop: the list object iterated, the next index, the elements seen\<close>

record system =
  store :: "nat \<Rightarrow> highlight_box list"
  next_addr :: nat
  boxes_ref :: nat           \<comment> \<open>the object the worker's \<^verbatim>\<open>boxes\<close> denotes\<close>
  matched_boxes_ref :: nat   \<comment> \<open>the object the global \<^verbatim>\<open>matched_boxes\<close> denotes\<close>
  lock :: "lock_owner option"
  worker :: worker_pc
  painter :: painter_pc
  painted :: "highlight_box list list"   \<comment> \<open>what each finished \<^verbatim>\<open>paintEvent\<close> iterated over\<close>

datatype event =
    W_new_list                 \<comment> \<open>\<^verbatim>\<open>boxes = []\<close>\<close>
  | W_append highlight_box     \<comment> \<open>\<^verbatim>\<open>boxes.append(...)\<close>\<close>
  | W_raise                    \<comment> \<open>an exception reaches the outer \<^verbatim>\<open>except\<close>\<close>
  | W_acquire                  \<comment> \<open>\<^verbatim>\<open>lock.acquire()\<close> in the worker\<close>
  | W_rebind                   \<comment> \<open>\<^verbatim>\<open>matched_boxes = boxes\<close>\<close>
  | W_release                  \<comment> \<open>\<^verbatim>\<open>lock.release()\<close> in the worker\<close>
  | P_acquire                  \<comment> \<open>\<^verbatim>\<open>lock.acquire()\<close> in \<^verbatim>\<open>paintEvent\<close>, and the start of its loop\<close>
  | P_next                     \<comment> \<open>the loop takes the next element\<close>
  | P_release                  \<comment> \<open>the loop is exhausted; \<^verbatim>\<open>lock.release()\<close>\<close>

text \<open>
  The module binds \<^verbatim>\<open>matched_boxes = []\<close>. The worker's \<^verbatim>\<open>boxes\<close> is unbound until its
  first \<^verbatim>\<open>boxes = []\<close>; no event reads it before.
\<close>

definition init_system :: system where
  "init_system = \<lparr> store = (\<lambda>a. []), next_addr = 1, boxes_ref = 0, matched_boxes_ref = 0,
                    lock = None, worker = LoopTop, painter = NotPainting, painted = [] \<rparr>"

text \<open>\<open>step e s\<close> is the state after event \<open>e\<close>, or \<open>None\<close> when \<open>e\<close> cannot happen in \<open>s\<close>.\<close>

fun step :: "event \<Rightarrow> system \<Rightarrow> system option" where
  "step W_new_list s =
     (if worker s = LoopTop
      then Some (s\<lparr> store := (store s)(next_addr s := []), boxes_ref := next_addr s,
                    next_addr := Suc (next_addr s), worker := Building \<rparr>)
      else None)"
| "step (W_append b) s =
     (if worker s = Building
      then Some (s\<lparr> store := (store s)(boxes_ref s := store s (boxes_ref s) @ [b]) \<rparr>)
      else None)"
| "step W_raise s =
     (if worker s = Building then Some (s\<lparr> worker := LoopTop \<rparr>) else None)"
| "step W_acquire s =
     (if worker s = Building \<and> lock s = None
      then Some (s\<lparr> lock := Some WorkerThread, worker := WorkerLocked \<rparr>)
      else None)"
| "step W_rebind s =
     (if worker s = WorkerLocked
      then Some (s\<lparr> matched_boxes_ref := boxes_ref s, worker := Rebound \<rparr>)
      else None)"
| "step W_release s =
     (if worker s = Rebound then Some (s\<lparr> lock := None, worker := LoopTop \<rparr>) else None)"
| "step P_acquire s =
     (if painter s = NotPainting \<and> lock s = None
      then Some (s\<lparr> lock := Some PainterThread, painter := Painting (matched_boxes_ref s) 0 [] \<rparr>)
      else None)"
| "step P_next s =
     (case painter s of
        Painting obj i seen \<Rightarrow>
          if i < length (store s obj)
          then Some (s\<lparr> painter := Painting obj (Suc i) (seen @ [store s obj ! i]) \<rparr>)
          else None
      | NotPainting \<Rightarrow> None)"
| "step P_release s =
     (case painter s of
        Painting obj i seen \<Rightarrow>
          if i < length (store s obj) then None
          else Some (s\<lparr> lock := None, painter := NotPainting, painted := painted s @ [seen] \<rparr>)
      | NotPainting \<Rightarrow> None)"

fun run_events :: "event list \<Rightarrow> system \<Rightarrow> system option" where
  "run_events [] s = Some s"
| "run_events (e # es) s = (case step e s of None \<Rightarrow> None | Some s' \<Rightarrow> run_events es s')"

definition published :: "system \<Rightarrow> highlight_box list" where
  \<comment> \<open>the content of the list that \<^verbatim>\<open>matched_boxes\<close> denotes\<close>
  "published s = store s (matched_boxes_ref s)"

text \<open>
  Two invariants of the transition system. The first holds in every reachable state: the
  worker appends only to a list object that \<^verbatim>\<open>matched_boxes\<close> does not denote, and the
  lock has the owner the program counters say. The second holds while \<^verbatim>\<open>paintEvent\<close> is
  inside its loop: what it has seen so far is an initial segment of one and the same list.
\<close>

definition system_inv :: "system \<Rightarrow> bool" where
  "system_inv s =
     (matched_boxes_ref s < next_addr s \<and> boxes_ref s < next_addr s \<and>
      (worker s = Building \<or> worker s = WorkerLocked \<longrightarrow> boxes_ref s \<noteq> matched_boxes_ref s) \<and>
      (lock s = Some WorkerThread \<longleftrightarrow> worker s = WorkerLocked \<or> worker s = Rebound) \<and>
      (lock s = Some PainterThread \<longleftrightarrow> painter s \<noteq> NotPainting))"

definition painting_inv :: "highlight_box list \<Rightarrow> highlight_box list list \<Rightarrow> system \<Rightarrow> bool" where
  "painting_inv content before s =
     (system_inv s \<and> published s = content \<and> painted s = before \<and>
      (\<exists>i. i \<le> length content \<and> painter s = Painting (matched_boxes_ref s) i (take i content)))"

section \<open>Facts about the string functions\<close>





lemmas eval_string = lower_def lower_char_def is_space_def is_word_char_def strip_def fold_case_def
lemmas eval_match = match_text_def plain_match_def keyword_match_def get_match_details_def


subsection \<open>The words of a text\<close>



lemma findall_words_skip: "\<not> is_word_char c \<Longrightarrow> findall_words (c # cs) = findall_words cs"
  by simp








section \<open>The matcher\<close>

text \<open>
  C10. Whatever the logic and the flags are, and whatever \<^verbatim>\<open>re.search\<close> does: when the
  keyword list is empty or the text is empty, \<^verbatim>\<open>match_text\<close> returns \<^verbatim>\<open>False\<close> and
  \<^verbatim>\<open>get_match_details\<close> returns the dictionary with \<^verbatim>\<open>matched\<close> false and no keywords.
\<close>

theorem empty_inputs_never_match: "keyword_list m = [] \<or> text = [] \<Longrightarrow>
   match_text re m text = False \<and>
   get_match_details m text = \<lparr> d_matched = False, d_keywords = [], d_text = None \<rparr>"
  by (simp add: match_text_def get_match_details_def)

theorem empty_inputs_never_match_witness:
  "match_text (\<lambda>pattern text ignorecase. ReFound)
      \<lparr> keyword_list = [], logic = ''AND'', case_sensitive = True, partial_match = False,
        use_regex = True, whole_word = True \<rparr> ''abc'' = False
   \<and> get_match_details
      \<lparr> keyword_list = [''abc''], logic = ''OR'', case_sensitive = False, partial_match = True,
        use_regex = False, whole_word = False \<rparr> '''' =
      \<lparr> d_matched = False, d_keywords = [], d_text = None \<rparr>"
  using empty_inputs_never_match [of "\<lparr> keyword_list = [], logic = ''AND'', case_sensitive = True,
          partial_match = False, use_regex = True, whole_word = True \<rparr>" "''abc''"
          "\<lambda>pattern text ignorecase. ReFound"]
        empty_inputs_never_match [of "\<lparr> keyword_list = [''abc''], logic = ''OR'',
          case_sensitive = False, partial_match = True, use_regex = False, whole_word = False \<rparr>"
          "''''" "\<lambda>pattern text ignorecase. ReFound"]
  by simp
















subsection \<open>Regular-expression mode\<close>








lemma details_loop_regex:
  "details_loop (m\<lparr>use_regex := b\<rparr>) text ks d = details_loop m text ks d"
  by (induction ks arbitrary: d) (simp_all add: keyword_match_def fold_case_def Let_def)

text \<open>
  C6. \<^verbatim>\<open>get_match_details\<close> never reads \<^verbatim>\<open>use_regex\<close>: its result is the same with the
  flag set and cleared. In regular-expression mode with the logic OR, the keyword \<^verbatim>\<open>a.c\<close>
  and the text \<^verbatim>\<open>abc\<close>, \<^verbatim>\<open>match_text\<close> is true because the pattern matches, and the
  details list no keyword and say \<^verbatim>\<open>matched\<close> is false.
\<close>

theorem details_ignore_regex:
  "get_match_details (m\<lparr>use_regex := True\<rparr>) text = get_match_details (m\<lparr>use_regex := False\<rparr>) text
   \<and> match_text re_table (init_model\<lparr>use_regex := True, keyword_list := [''a.c'']\<rparr>) ''abc''
   \<and> get_match_details (init_model\<lparr>use_regex := True, keyword_list := [''a.c'']\<rparr>) ''abc''
       = \<lparr> d_matched = False, d_keywords = [], d_text = Some ''abc'' \<rparr>"
proof (intro conjI)
  show "get_match_details (m\<lparr>use_regex := True\<rparr>) text = get_match_details (m\<lparr>use_regex := False\<rparr>) text"
    by (simp add: get_match_details_def details_loop_regex)
next
  show "match_text re_table (init_model\<lparr>use_regex := True, keyword_list := [''a.c'']\<rparr>) ''abc''"
    by (simp add: init_model_def re_table_def match_text_def)
next
  show "get_match_details (init_model\<lparr>use_regex := True, keyword_list := [''a.c'']\<rparr>) ''abc''
       = \<lparr> d_matched = False, d_keywords = [], d_text = Some ''abc'' \<rparr>"
    by (simp add: init_model_def get_match_details_def keyword_match_def eval_string)
qed


section \<open>The keyword list\<close>














section \<open>Selecting a region\<close>

lemma first_monitor_at_key:
  "first_monitor_at monitor_info gx gy = Some idx \<Longrightarrow> \<exists>monitor. map_of monitor_info idx = Some monitor"
  by (induction monitor_info gx gy rule: first_monitor_at.induct) (auto split: if_splits)

lemma get_monitor_at_point_key:
  "get_monitor_at_point win monitor_info x y = Some idx \<Longrightarrow>
   \<exists>monitor. map_of monitor_info idx = Some monitor"
  by (auto simp: get_monitor_at_point_def Let_def dest: first_monitor_at_key)

text \<open>
  C7, as worded: a selection is rejected exactly when its width is below 50 or its height
  below 30. With monitor 1 at the origin and monitor 2 below and to the right of it, a
  drag from (1900, 100) to (2100, 1200) is 200 wide and 1100 high, its centre (2000, 650)
  lies on neither monitor, and \<^verbatim>\<open>mouseReleaseEvent\<close> returns after its second warning: the
  registry keeps its content.
\<close>

theorem region_selection_counterexample:
  "mouseReleaseEvent True
      \<lparr> win_x = 0, win_y = 0, start_x = 1900, start_y = 100, end_x = 2100, end_y = 1200,
        is_selecting = True \<rparr>
      (get_monitor_info
        [\<lparr> mss_left = 0, mss_top = 0, mss_width = 3840, mss_height = 2160 \<rparr>,
         \<lparr> mss_left = 0, mss_top = 0, mss_width = 1920, mss_height = 1080 \<rparr>,
         \<lparr> mss_left = 1920, mss_top = 1080, mss_width = 1920, mss_height = 1080 \<rparr>])
     = MonitorUnknown
   \<and> release_and_select True
      \<lparr> win_x = 0, win_y = 0, start_x = 1900, start_y = 100, end_x = 2100, end_y = 1200,
        is_selecting = True \<rparr>
      (get_monitor_info
        [\<lparr> mss_left = 0, mss_top = 0, mss_width = 3840, mss_height = 2160 \<rparr>,
         \<lparr> mss_left = 0, mss_top = 0, mss_width = 1920, mss_height = 1080 \<rparr>,
         \<lparr> mss_left = 1920, mss_top = 1080, mss_width = 1920, mss_height = 1080 \<rparr>])
      [(1, Some (0, 0, 200, 100))]
     = [(1, Some (0, 0, 200, 100))]
   \<and> \<not> (\<bar>1900 - 2100\<bar> < (50::int) \<or> \<bar>100 - 1200\<bar> < (30::int))"
  by (simp add: release_and_select_def mouseReleaseEvent_def get_monitor_at_point_def
        get_monitor_info_def)


text \<open>
  C7, amended. When the left button is released at the end of a drag, the selection is
  rejected, and the registry left as it was, exactly when the width is below 50, or the
  height is below 30, or \<^verbatim>\<open>get_monitor_at_point\<close> finds no monitor (or the index 0) for the
  centre of the selection; the size warning is given exactly in the first two cases, so
  50 by 30 passes the size check and a width of 49 does not. In every other case the
  registry entry of the monitor found becomes the selection, relative to that monitor.
\<close>

theorem region_selection_rejects:
  assumes "left_button" and "is_selecting win"
    and "x = min (start_x win) (end_x win)" and "y = min (start_y win) (end_y win)"
    and "w = \<bar>start_x win - end_x win\<bar>" and "h = \<bar>start_y win - end_y win\<bar>"
    and "centre = get_monitor_at_point win monitor_info (x + w div 2) (y + h div 2)"
  shows "(mouseReleaseEvent left_button win monitor_info \<in> {RegionTooSmall, MonitorUnknown}
            \<longleftrightarrow> w < 50 \<or> h < 30 \<or> centre = None \<or> centre = Some 0)
       \<and> (mouseReleaseEvent left_button win monitor_info = RegionTooSmall \<longleftrightarrow> w < 50 \<or> h < 30)
       \<and> (mouseReleaseEvent left_button win monitor_info \<in> {RegionTooSmall, MonitorUnknown}
            \<longrightarrow> release_and_select left_button win monitor_info selected_regions = selected_regions)
       \<and> (mouseReleaseEvent left_button win monitor_info \<notin> {RegionTooSmall, MonitorUnknown}
            \<longrightarrow> (\<exists>idx monitor. centre = Some idx \<and> map_of monitor_info idx = Some monitor \<and>
                  release_and_select left_button win monitor_info selected_regions =
                    dict_set idx
                      (Some (x + win_x win - mon_left monitor, y + win_y win - mon_top monitor, w, h))
                      selected_regions))"
proof -
  have ev: "mouseReleaseEvent left_button win monitor_info =
      (if w < 50 \<or> h < 30 then RegionTooSmall
       else case centre of
              None \<Rightarrow> MonitorUnknown
            | Some idx \<Rightarrow>
                if idx = 0 then MonitorUnknown
                else (case map_of monitor_info idx of
                        None \<Rightarrow> LookupFailed
                      | Some monitor \<Rightarrow>
                          RegionSelected
                            (x + win_x win - mon_left monitor, y + win_y win - mon_top monitor, w, h)
                            idx))"
    using assms(1,2) unfolding assms(3-7)
    by (simp add: mouseReleaseEvent_def Let_def split: option.splits)
  show ?thesis
  proof (cases "w < 50 \<or> h < 30")
    case True
    with ev have "mouseReleaseEvent left_button win monitor_info = RegionTooSmall" by simp
    then show ?thesis using True by (auto simp: release_and_select_def)
  next
    case big: False
    show ?thesis
    proof (cases centre)
      case None
      with ev big have "mouseReleaseEvent left_button win monitor_info = MonitorUnknown" by simp
      then show ?thesis using big None by (auto simp: release_and_select_def)
    next
      case (Some idx)
      show ?thesis
      proof (cases "idx = 0")
        case True
        with ev big Some have "mouseReleaseEvent left_button win monitor_info = MonitorUnknown"
          by simp
        then show ?thesis using big Some True by (auto simp: release_and_select_def)
      next
        case False
        from Some assms(7) obtain monitor where mon: "map_of monitor_info idx = Some monitor"
          using get_monitor_at_point_key by metis
        with ev big Some False have "mouseReleaseEvent left_button win monitor_info =
            RegionSelected
              (x + win_x win - mon_left monitor, y + win_y win - mon_top monitor, w, h) idx"
          by simp
        then show ?thesis using big Some False mon
          by (auto simp: release_and_select_def on_region_selected_def)
      qed
    qed
  qed
qed


theorem region_selection_rejects_witness:
  "release_and_select True
      \<lparr> win_x = 0, win_y = 0, start_x = 0, start_y = 0, end_x = 50, end_y = 30, is_selecting = True \<rparr>
      (get_monitor_info
        [\<lparr> mss_left = 0, mss_top = 0, mss_width = 1920, mss_height = 1080 \<rparr>,
         \<lparr> mss_left = 0, mss_top = 0, mss_width = 1920, mss_height = 1080 \<rparr>]) []
     = [(1, Some (0, 0, 50, 30))]
   \<and> mouseReleaseEvent True
      \<lparr> win_x = 0, win_y = 0, start_x = 0, start_y = 0, end_x = 49, end_y = 30, is_selecting = True \<rparr>
      (get_monitor_info
        [\<lparr> mss_left = 0, mss_top = 0, mss_width = 1920, mss_height = 1080 \<rparr>,
         \<lparr> mss_left = 0, mss_top = 0, mss_width = 1920, mss_height = 1080 \<rparr>])
     = RegionTooSmall
   \<and> release_and_select True
      \<lparr> win_x = 0, win_y = 0, start_x = 0, start_y = 0, end_x = 49, end_y = 30, is_selecting = True \<rparr>
      (get_monitor_info
        [\<lparr> mss_left = 0, mss_top = 0, mss_width = 1920, mss_height = 1080 \<rparr>,
         \<lparr> mss_left = 0, mss_top = 0, mss_width = 1920, mss_height = 1080 \<rparr>]) []
     = []"
  using region_selection_rejects [of True
      "\<lparr> win_x = 0, win_y = 0, start_x = 0, start_y = 0, end_x = 50, end_y = 30, is_selecting = True \<rparr>"
      0 0 50 30 "Some 1"
      "get_monitor_info
        [\<lparr> mss_left = 0, mss_top = 0, mss_width = 1920, mss_height = 1080 \<rparr>,
         \<lparr> mss_left = 0, mss_top = 0, mss_width = 1920, mss_height = 1080 \<rparr>]" "[]"]
    region_selection_rejects [of True
      "\<lparr> win_x = 0, win_y = 0, start_x = 0, start_y = 0, end_x = 49, end_y = 30, is_selecting = True \<rparr>"
      0 0 49 30 "Some 1"
      "get_monitor_info
        [\<lparr> mss_left = 0, mss_top = 0, mss_width = 1920, mss_height = 1080 \<rparr>,
         \<lparr> mss_left = 0, mss_top = 0, mss_width = 1920, mss_height = 1080 \<rparr>]" "[]"]
  by (simp add: get_monitor_at_point_def get_monitor_info_def)


section \<open>The scan cycle and its boxes\<close>

lemma scan_region_failed:
  assumes "capture_or_recognition_fails P entry"
  shows "scan_region P re m entry acc = Inr acc"
proof -
  obtain monitor_idx region_opt where entry: "entry = (monitor_idx, region_opt)"
    by (cases entry)
  with assms obtain region_x region_y region_w region_h
    where reg: "region_opt = Some (region_x, region_y, region_w, region_h)"
    by (cases region_opt) (auto simp: capture_or_recognition_fails_def)
  from assms entry reg
  have len: "monitor_idx - 1 < int (length (drop 1 (sct_monitors P)))"
    by (simp add: capture_or_recognition_fails_def)
  from assms entry reg obtain monitor
    where mon: "py_index (drop 1 (sct_monitors P)) (monitor_idx - 1) = Inr monitor"
    by (cases "py_index (drop 1 (sct_monitors P)) (monitor_idx - 1)")
       (auto simp: capture_or_recognition_fails_def)
  let ?area = "\<lparr> area_left = mss_left monitor + region_x, area_top = mss_top monitor + region_y,
                  area_width = region_w, area_height = region_h \<rparr>"
  from assms entry reg mon
  have fail: "(case grab P ?area of
                 Inl e \<Rightarrow> True
               | Inr img \<Rightarrow> (case image_to_data P img of Inl e \<Rightarrow> True | Inr data \<Rightarrow> False))"
    by (simp add: capture_or_recognition_fails_def)
  show ?thesis
  proof (cases "grab P ?area")
    case (Inl e)
    with entry reg len mon show ?thesis by (simp add: scan_region_def Let_def)
  next
    case (Inr img)
    with fail obtain e where "image_to_data P img = Inl e"
      by (cases "image_to_data P img") auto
    with Inr entry reg len mon show ?thesis by (simp add: scan_region_def Let_def)
  qed
qed

lemma scan_regions_append:
  "scan_regions P re m (rs1 @ rs2) acc =
     (case scan_regions P re m rs1 acc of
        Inl e \<Rightarrow> Inl e
      | Inr acc' \<Rightarrow> scan_regions P re m rs2 acc')"
  by (induction rs1 arbitrary: acc) (auto split: sum.splits)

lemma scan_regions_skip_failed:
  assumes "capture_or_recognition_fails P entry"
  shows "scan_regions P re m (rs1 @ entry # rs2) acc = scan_regions P re m (rs1 @ rs2) acc"
  using assms by (simp add: scan_regions_append scan_region_failed split: sum.splits)

lemma match_fragments_Cons:
  "match_fragments re m sf region idx (frag # rest) acc =
     (if strip (frag_text frag) = [] then match_fragments re m sf region idx rest acc
      else if \<not> match_text re m (strip (frag_text frag))
      then match_fragments re m sf region idx rest acc
      else if \<not> d_matched (get_match_details m (strip (frag_text frag)))
      then match_fragments re m sf region idx rest acc
      else (case fragment_box sf region idx
                  (first_keyword_index m (get_match_details m (strip (frag_text frag)))) frag of
              Inl e \<Rightarrow> acc
            | Inr box \<Rightarrow> match_fragments re m sf region idx rest (acc @ [box])))"
  by (simp add: Let_def)

lemma match_fragments_acc:
  "match_fragments re m sf region idx data acc =
     acc @ match_fragments re m sf region idx data []"
proof (induction data arbitrary: acc)
  case Nil
  show ?case by simp
next
  case (Cons frag rest)
  have IH1: "match_fragments re m sf region idx rest acc =
               acc @ match_fragments re m sf region idx rest []"
    by (rule Cons.IH)
  have IH2: "\<And>box. match_fragments re m sf region idx rest (acc @ [box]) =
               acc @ [box] @ match_fragments re m sf region idx rest []"
    using Cons.IH [of "acc @ [box]" for box] by simp
  have IH3: "\<And>box. match_fragments re m sf region idx rest [box] =
               [box] @ match_fragments re m sf region idx rest []"
    using Cons.IH [of "[box]" for box] by simp
  show ?case
    unfolding match_fragments_Cons [of re m sf region idx frag rest acc]
              match_fragments_Cons [of re m sf region idx frag rest "[]"]
    using IH1 IH2 IH3
    by (cases "fragment_box sf region idx
                  (first_keyword_index m (get_match_details m (strip (frag_text frag)))) frag")
       (simp_all del: match_fragments.simps)
qed


lemma scan_region_acc:
  "scan_region P re m entry acc =
     (case scan_region P re m entry [] of Inl e \<Rightarrow> Inl e | Inr bs \<Rightarrow> Inr (acc @ bs))"
proof -
  have mf: "\<And>sf region idx data. match_fragments re m sf region idx data acc =
     acc @ match_fragments re m sf region idx data []"
    by (rule match_fragments_acc)
  show ?thesis
    by (simp add: scan_region_def Let_def mf split: prod.splits option.splits sum.splits)
qed

lemma scan_region_no_raise:
  assumes "1 \<le> fst entry"
  shows "scan_region P re m entry acc = Inr (acc @ boxes_of_region P re m entry)"
proof -
  obtain monitor_idx region_opt where entry: "entry = (monitor_idx, region_opt)"
    by (cases entry)
  with assms have pos: "1 \<le> monitor_idx" by simp
  have idx: "monitor_idx - 1 < int (length (drop 1 (sct_monitors P))) \<Longrightarrow>
           \<exists>monitor. py_index (drop 1 (sct_monitors P)) (monitor_idx - 1) = Inr monitor"
    using pos by (simp add: py_index_def)
  have "\<exists>bs. scan_region P re m entry [] = Inr bs"
    using idx unfolding entry
    by (auto simp: scan_region_def Let_def split: prod.splits option.splits sum.splits)
  then obtain bs where bs: "scan_region P re m entry [] = Inr bs" ..
  then have "boxes_of_region P re m entry = bs" by (simp add: boxes_of_region_def)
  with bs show ?thesis by (subst scan_region_acc) simp
qed

lemma scan_regions_concat:
  assumes "\<forall>entry\<in>set rs. 1 \<le> fst entry"
  shows "scan_regions P re m rs acc = Inr (acc @ concat (map (boxes_of_region P re m) rs))"
  using assms
proof (induction rs arbitrary: acc)
  case Nil
  show ?case by simp
next
  case (Cons entry rs)
  then show ?case by (simp add: scan_region_no_raise)
qed


lemmas eval_scan = scan_region_def py_index_def fragment_box_def scaled_back_def py_int_def
  first_keyword_index_def

text \<open>
  C3. When the capture or the recognition of one configured region raises, the exception
  is caught inside the loop body: the cycle ends as it would without that region, so the
  other regions are processed as usual. With monitor indices counted from 1, as the
  program assigns them, the cycle then publishes exactly the boxes of the other regions, in
  the order of the registry. Nothing is remembered of the failure, the next cycle tries
  the region again.
\<close>

theorem failed_region_is_skipped:
  assumes "capture_or_recognition_fails P entry"
  shows "ocr_cycle P re m (rs1 @ entry # rs2) old = ocr_cycle P re m (rs1 @ rs2) old
       \<and> ((\<forall>other\<in>set (rs1 @ rs2). 1 \<le> fst other) \<longrightarrow>
            ocr_cycle P re m (rs1 @ entry # rs2) old =
              concat (map (boxes_of_region P re m) (rs1 @ rs2)))"
proof
  show same: "ocr_cycle P re m (rs1 @ entry # rs2) old = ocr_cycle P re m (rs1 @ rs2) old"
    using assms by (simp only: ocr_cycle_def scan_regions_skip_failed)
  show "(\<forall>other\<in>set (rs1 @ rs2). 1 \<le> fst other) \<longrightarrow>
            ocr_cycle P re m (rs1 @ entry # rs2) old =
              concat (map (boxes_of_region P re m) (rs1 @ rs2))"
  proof
    assume "\<forall>other\<in>set (rs1 @ rs2). 1 \<le> fst other"
    then have "scan_regions P re m (rs1 @ rs2) [] =
                 Inr ([] @ concat (map (boxes_of_region P re m) (rs1 @ rs2)))"
      by (rule scan_regions_concat)
    then have "ocr_cycle P re m (rs1 @ rs2) old = concat (map (boxes_of_region P re m) (rs1 @ rs2))"
      by (simp add: ocr_cycle_def)
    with same show "ocr_cycle P re m (rs1 @ entry # rs2) old =
              concat (map (boxes_of_region P re m) (rs1 @ rs2))" by simp
  qed
qed


theorem failed_region_is_skipped_witness:
  "capture_or_recognition_fails
     \<lparr> sct_monitors =
         [\<lparr> mss_left = 0, mss_top = 0, mss_width = 3840, mss_height = 1080 \<rparr>,
          \<lparr> mss_left = 0, mss_top = 0, mss_width = 1920, mss_height = 1080 \<rparr>,
          \<lparr> mss_left = 1920, mss_top = 0, mss_width = 1920, mss_height = 1080 \<rparr>],
       grab = (\<lambda>area. if area_left area < 1920 then Inl ExternalError else Inr (0::nat)),
       image_to_data = (\<lambda>img. Inr [\<lparr> frag_text = ''apple'', frag_left = 10, frag_top = 10,
                                       frag_width = 40, frag_height = 12 \<rparr>]),
       scale_percent = 100 \<rparr>
     (1, Some (5, 5, 300, 200))
   \<and> ocr_cycle
     \<lparr> sct_monitors =
         [\<lparr> mss_left = 0, mss_top = 0, mss_width = 3840, mss_height = 1080 \<rparr>,
          \<lparr> mss_left = 0, mss_top = 0, mss_width = 1920, mss_height = 1080 \<rparr>,
          \<lparr> mss_left = 1920, mss_top = 0, mss_width = 1920, mss_height = 1080 \<rparr>],
       grab = (\<lambda>area. if area_left area < 1920 then Inl ExternalError else Inr (0::nat)),
       image_to_data = (\<lambda>img. Inr [\<lparr> frag_text = ''apple'', frag_left = 10, frag_top = 10,
                                       frag_width = 40, frag_height = 12 \<rparr>]),
       scale_percent = 100 \<rparr>
     re_table (init_model\<lparr>keyword_list := [''apple'']\<rparr>)
     [(1, Some (5, 5, 300, 200)), (2, Some (100, 50, 300, 200))] []
   = [\<lparr> box_x = 110, box_y = 60, box_w = 40, box_h = 12, box_monitor = 2, box_keyword = 0 \<rparr>]"
  using failed_region_is_skipped [of
     "\<lparr> sct_monitors =
         [\<lparr> mss_left = 0, mss_top = 0, mss_width = 3840, mss_height = 1080 \<rparr>,
          \<lparr> mss_left = 0, mss_top = 0, mss_width = 1920, mss_height = 1080 \<rparr>,
          \<lparr> mss_left = 1920, mss_top = 0, mss_width = 1920, mss_height = 1080 \<rparr>],
       grab = (\<lambda>area. if area_left area < 1920 then Inl ExternalError else Inr (0::nat)),
       image_to_data = (\<lambda>img. Inr [\<lparr> frag_text = ''apple'', frag_left = 10, frag_top = 10,
                                       frag_width = 40, frag_height = 12 \<rparr>]),
       scale_percent = 100 \<rparr>"
     "(1, Some (5, 5, 300, 200))" re_table "init_model\<lparr>keyword_list := [''apple'']\<rparr>"
     "[]" "[(2, Some (100, 50, 300, 200))]" "[]"]
  by (simp add: capture_or_recognition_fails_def boxes_of_region_def ocr_cycle_def
        eval_scan eval_match eval_string init_model_def)


section \<open>Where a box is painted\<close>















section \<open>Publishing the boxes\<close>

lemma system_inv_init: "system_inv init_system"
  by (simp add: system_inv_def init_system_def)

lemma system_inv_step:
  assumes "system_inv s" and "step e s = Some s'"
  shows "system_inv s'"
proof (cases e)
  case W_new_list
  with assms show ?thesis by (auto simp: system_inv_def split: if_splits)
next
  case (W_append b)
  with assms show ?thesis by (auto simp: system_inv_def split: if_splits)
next
  case W_raise
  with assms show ?thesis by (auto simp: system_inv_def split: if_splits)
next
  case W_acquire
  with assms show ?thesis by (auto simp: system_inv_def split: if_splits)
next
  case W_rebind
  with assms show ?thesis by (auto simp: system_inv_def split: if_splits)
next
  case W_release
  with assms show ?thesis by (auto simp: system_inv_def split: if_splits)
next
  case P_acquire
  with assms show ?thesis by (auto simp: system_inv_def split: if_splits)
next
  case P_next
  with assms show ?thesis by (auto simp: system_inv_def split: if_splits painter_pc.splits)
next
  case P_release
  with assms show ?thesis by (auto simp: system_inv_def split: if_splits painter_pc.splits)
qed

lemma system_inv_run:
  "system_inv s \<Longrightarrow> run_events evs s = Some s' \<Longrightarrow> system_inv s'"
proof (induction evs arbitrary: s)
  case Nil
  then show ?case by simp
next
  case (Cons e evs)
  from Cons.prems(2) obtain s1 where "step e s = Some s1" and "run_events evs s1 = Some s'"
    by (auto split: option.splits)
  with Cons.IH system_inv_step [OF Cons.prems(1)] show ?case by blast
qed

lemma published_step:
  assumes "system_inv s" and "step e s = Some s'"
  shows "published s' = published s \<or> (e = W_rebind \<and> published s' = store s (boxes_ref s))"
proof (cases e)
  case W_new_list
  with assms show ?thesis by (auto simp: system_inv_def published_def split: if_splits)
next
  case (W_append b)
  with assms show ?thesis by (auto simp: system_inv_def published_def split: if_splits)
next
  case W_raise
  with assms show ?thesis by (auto simp: published_def split: if_splits)
next
  case W_acquire
  with assms show ?thesis by (auto simp: published_def split: if_splits)
next
  case W_rebind
  with assms show ?thesis by (auto simp: published_def split: if_splits)
next
  case W_release
  with assms show ?thesis by (auto simp: published_def split: if_splits)
next
  case P_acquire
  with assms show ?thesis by (auto simp: published_def split: if_splits)
next
  case P_next
  with assms show ?thesis by (auto simp: published_def split: if_splits painter_pc.splits)
next
  case P_release
  with assms show ?thesis by (auto simp: published_def split: if_splits painter_pc.splits)
qed

lemma painting_inv_step:
  assumes "painting_inv content before s" and "step e s = Some s'" and "e \<noteq> P_release"
  shows "painting_inv content before s'"
proof -
  from assms(1) have inv: "system_inv s" and pub: "published s = content"
    and pd: "painted s = before"
    by (simp_all add: painting_inv_def)
  from assms(1) obtain i where i: "i \<le> length content"
    and p: "painter s = Painting (matched_boxes_ref s) i (take i content)"
    by (auto simp: painting_inv_def)
  from inv p have lk: "lock s = Some PainterThread" by (simp add: system_inv_def)
  with inv have w: "worker s \<noteq> WorkerLocked" "worker s \<noteq> Rebound" by (auto simp: system_inv_def)
  have inv': "system_inv s'" using inv assms(2) by (rule system_inv_step)
  show ?thesis
  proof (cases e)
    case W_new_list
    with assms(2) inv pub pd i p inv' show ?thesis
      by (auto simp: painting_inv_def published_def system_inv_def split: if_splits)
  next
    case (W_append b)
    with assms(2) inv pub pd i p inv' show ?thesis
      by (auto simp: painting_inv_def published_def system_inv_def split: if_splits)
  next
    case W_raise
    with assms(2) pub pd i p inv' show ?thesis
      by (auto simp: painting_inv_def published_def split: if_splits)
  next
    case W_acquire
    with assms(2) lk show ?thesis by (auto split: if_splits)
  next
    case W_rebind
    with assms(2) w show ?thesis by (auto split: if_splits)
  next
    case W_release
    with assms(2) w show ?thesis by (auto split: if_splits)
  next
    case P_acquire
    with assms(2) p show ?thesis by (auto split: if_splits)
  next
    case P_next
    with assms(2) p pub have lt: "i < length content"
      and s': "s' = s\<lparr> painter := Painting (matched_boxes_ref s) (Suc i)
                                   (take i content @ [content ! i]) \<rparr>"
      by (auto simp: published_def split: if_splits)
    from lt have "take i content @ [content ! i] = take (Suc i) content"
      by (simp add: take_Suc_conv_app_nth)
    with s' lt pub pd inv' show ?thesis
      by (auto simp: painting_inv_def published_def)
  next
    case P_release
    with assms(3) show ?thesis by simp
  qed
qed

lemma painting_inv_run:
  "painting_inv content before s \<Longrightarrow> run_events evs s = Some s' \<Longrightarrow> P_release \<notin> set evs \<Longrightarrow>
   painting_inv content before s'"
proof (induction evs arbitrary: s)
  case Nil
  then show ?case by simp
next
  case (Cons e evs)
  from Cons.prems(2) obtain s1 where st: "step e s = Some s1" and rn: "run_events evs s1 = Some s'"
    by (auto split: option.splits)
  from Cons.prems(3) have "e \<noteq> P_release" "P_release \<notin> set evs" by auto
  with painting_inv_step [OF Cons.prems(1) st] Cons.IH rn show ?case by blast
qed

lemma painting_inv_acquire:
  assumes "system_inv s" and "step P_acquire s = Some s1"
  shows "painting_inv (published s) (painted s) s1"
proof -
  from assms(2) have s1: "s1 = s\<lparr> lock := Some PainterThread,
                                    painter := Painting (matched_boxes_ref s) 0 [] \<rparr>"
    by (auto split: if_splits)
  have "system_inv s1" using assms by (rule system_inv_step)
  with s1 show ?thesis by (simp add: painting_inv_def published_def)
qed

lemma painting_inv_release:
  assumes "painting_inv content before s" and "step P_release s = Some s'"
  shows "painted s' = before @ [content] \<and> published s' = content"
proof -
  from assms(1) obtain i where i: "i \<le> length content"
    and p: "painter s = Painting (matched_boxes_ref s) i (take i content)"
    and pub: "published s = content" and pd: "painted s = before"
    by (auto simp: painting_inv_def)
  from assms(2) p pub have "\<not> i < length content"
    and "s' = s\<lparr> lock := None, painter := NotPainting, painted := painted s @ [take i content] \<rparr>"
    by (auto simp: published_def split: if_splits)
  with i pub pd show ?thesis by (simp add: published_def)
qed

text \<open>
  C9. In every state the two threads can reach, by any interleaving: the list that
  \<^verbatim>\<open>matched_boxes\<close> denotes changes by no event except \<^verbatim>\<open>matched_boxes = boxes\<close>, which
  replaces it as a whole by the list the worker has finished building (the worker
  appends to a list of its own, never to the published one). And a \<^verbatim>\<open>paintEvent\<close> that
  takes the lock sees, element by element and whatever the worker does in between, exactly
  the list that was published when it took the lock; the published list is the same when
  it releases the lock.
\<close>

theorem published_list_replaced_whole:
  assumes "run_events evs init_system = Some s"
  shows "(\<forall>e s'. step e s = Some s' \<longrightarrow>
            published s' = published s \<or> (e = W_rebind \<and> published s' = store s (boxes_ref s)))
       \<and> (\<forall>s1 evs' s2 s3.
            step P_acquire s = Some s1 \<and> run_events evs' s1 = Some s2 \<and> P_release \<notin> set evs' \<and>
            step P_release s2 = Some s3 \<longrightarrow>
            published s2 = published s \<and> painted s3 = painted s @ [published s])"
proof -
  have inv: "system_inv s" using system_inv_init assms by (rule system_inv_run)
  have one: "\<forall>e s'. step e s = Some s' \<longrightarrow>
            published s' = published s \<or> (e = W_rebind \<and> published s' = store s (boxes_ref s))"
    using published_step [OF inv] by blast
  have two: "published s2 = published s \<and> painted s3 = painted s @ [published s]"
    if "step P_acquire s = Some s1" "run_events evs' s1 = Some s2" "P_release \<notin> set evs'"
       "step P_release s2 = Some s3" for s1 evs' s2 s3
  proof -
    have "painting_inv (published s) (painted s) s1" using inv that(1) by (rule painting_inv_acquire)
    then have pi: "painting_inv (published s) (painted s) s2" using that(2,3) by (rule painting_inv_run)
    then have "published s2 = published s" by (simp add: painting_inv_def)
    with painting_inv_release [OF pi that(4)] show ?thesis by simp
  qed
  from one two show ?thesis by blast
qed


theorem published_list_replaced_whole_witness:
  "map_option (\<lambda>s. (published s, painted s))
     (run_events
        [W_new_list,
         W_append \<lparr> box_x = 110, box_y = 60, box_w = 40, box_h = 12, box_monitor = 2, box_keyword = 0 \<rparr>,
         W_acquire, W_rebind, W_release,
         P_acquire, W_new_list,
         W_append \<lparr> box_x = 7, box_y = 8, box_w = 40, box_h = 12, box_monitor = 1, box_keyword = 0 \<rparr>,
         P_next, P_release]
        init_system)
   = Some ([\<lparr> box_x = 110, box_y = 60, box_w = 40, box_h = 12, box_monitor = 2, box_keyword = 0 \<rparr>],
           [[\<lparr> box_x = 110, box_y = 60, box_w = 40, box_h = 12, box_monitor = 2, box_keyword = 0 \<rparr>]])
   \<and> run_events
        [W_new_list,
         W_append \<lparr> box_x = 110, box_y = 60, box_w = 40, box_h = 12, box_monitor = 2, box_keyword = 0 \<rparr>,
         W_acquire, W_rebind, W_release,
         P_acquire, W_acquire]
        init_system = None"
proof -
  define s where "s = the (run_events
        [W_new_list,
         W_append \<lparr> box_x = 110, box_y = 60, box_w = 40, box_h = 12, box_monitor = 2, box_keyword = 0 \<rparr>,
         W_acquire, W_rebind, W_release] init_system)"
  have r: "run_events
        [W_new_list,
         W_append \<lparr> box_x = 110, box_y = 60, box_w = 40, box_h = 12, box_monitor = 2, box_keyword = 0 \<rparr>,
         W_acquire, W_rebind, W_release] init_system = Some s"
    by (simp add: s_def init_system_def)
  from published_list_replaced_whole [OF r] show ?thesis
    by (simp add: init_system_def published_def)
qed


end
